theory Spec2Isabelle
  imports Complex_Main
begin

section \<open>Arithmetic of the model\<close>

text \<open>
  The host program (Fractal.cpp) computes with \<^verbatim>\<open>double\<close>, the fragment shader with
  \<^verbatim>\<open>float\<close>. Both are modelled by exact real numbers: rounding, overflow to infinity,
  underflow and NaN are outside the model, and so is the narrowing of \<^verbatim>\<open>zoom\<close> and
  the offsets to single precision when the uniforms are written. A division by a zoom of
  zero has no real value in the program; HOL's \<open>x / 0 = 0\<close> is not what the program
  computes, so every statement below whose truth depends on the quotient assumes a
  non-zero (or positive) zoom.

  \<^verbatim>\<open>int\<close> values (the iteration counter, the iteration budget, the GLFW codes) are
  modelled by \<open>int\<close>. The counter is only incremented while it is below the budget
  (see \<open>while_loop_upper\<close>), so it never leaves the range of a 32-bit integer when the
  budget is in it.
\<close>

section \<open>Host side: globals and callbacks\<close>

text \<open>The window dimensions, lines 6-7.\<close>

definition WIDTH :: int where
  "WIDTH = 800"

definition HEIGHT :: int where
  "HEIGHT = 800"

text \<open>
  The global variables, lines 10-17. \<^verbatim>\<open>lastMouseX\<close> and \<^verbatim>\<open>lastMouseY\<close> have no
  initialiser and static storage, so they start at zero.
\<close>

record globals =
  zoom :: real
  offsetX :: real
  offsetY :: real
  maxIterations :: int
  isDragging :: bool
  lastMouseX :: real
  lastMouseY :: real

definition initial :: globals where
  "initial = \<lparr> zoom = 200, offsetX = - 0.5, offsetY = 0, maxIterations = 1500,
               isDragging = False, lastMouseX = 0, lastMouseY = 0 \<rparr>"

text \<open>
  What a callback can ask of the window it is given: \<^verbatim>\<open>glfwGetCursorPos\<close> reads the
  current cursor position.
\<close>

record GLFWwindow =
  cursorX :: real
  cursorY :: real

text \<open>The codes of glfw3.h that \<^verbatim>\<open>mouseButtonCallback\<close> compares with.\<close>

definition GLFW_MOUSE_BUTTON_LEFT :: int where
  "GLFW_MOUSE_BUTTON_LEFT = 0"

definition GLFW_RELEASE :: int where
  "GLFW_RELEASE = 0"

definition GLFW_PRESS :: int where
  "GLFW_PRESS = 1"

text \<open>Lines 19-26.\<close>

definition scrollCallback :: "globals \<Rightarrow> GLFWwindow \<Rightarrow> real \<Rightarrow> real \<Rightarrow> globals" where
  "scrollCallback g window xoffset yoffset =
     (if yoffset > 0 then g\<lparr>zoom := zoom g * 1.1\<rparr>
      else if yoffset < 0 then g\<lparr>zoom := zoom g / 1.1\<rparr>
      else g)"

text \<open>Lines 28-38.\<close>

definition mouseButtonCallback :: "globals \<Rightarrow> GLFWwindow \<Rightarrow> int \<Rightarrow> int \<Rightarrow> int \<Rightarrow> globals" where
  "mouseButtonCallback g window button action mods =
     (if button = GLFW_MOUSE_BUTTON_LEFT then
        (if action = GLFW_PRESS then
           g\<lparr>isDragging := True, lastMouseX := cursorX window, lastMouseY := cursorY window\<rparr>
         else if action = GLFW_RELEASE then g\<lparr>isDragging := False\<rparr>
         else g)
      else g)"

text \<open>Lines 40-50.\<close>

definition cursorPositionCallback :: "globals \<Rightarrow> GLFWwindow \<Rightarrow> real \<Rightarrow> real \<Rightarrow> globals" where
  "cursorPositionCallback g window xpos ypos =
     (if isDragging g then
        (let dx = xpos - lastMouseX g;
             dy = ypos - lastMouseY g;
             g1 = g\<lparr>lastMouseX := xpos, lastMouseY := ypos\<rparr>;
             g2 = g1\<lparr>offsetX := offsetX g1 - dx / zoom g1\<rparr>
         in g2\<lparr>offsetY := offsetY g2 + dy / zoom g2\<rparr>)
      else g)"

text \<open>
  The events \<^verbatim>\<open>glfwPollEvents\<close> delivers to the three callbacks registered in lines
  152-154, each with the window as it is at that moment, and a run of the program's
  event handling over a sequence of them.
\<close>

datatype event =
    Scroll GLFWwindow real real
  | MouseButton GLFWwindow int int int
  | CursorPos GLFWwindow real real

fun dispatch :: "globals \<Rightarrow> event \<Rightarrow> globals" where
  "dispatch g (Scroll w xoffset yoffset) = scrollCallback g w xoffset yoffset"
| "dispatch g (MouseButton w button action mods) = mouseButtonCallback g w button action mods"
| "dispatch g (CursorPos w xpos ypos) = cursorPositionCallback g w xpos ypos"

definition pollEvents :: "globals \<Rightarrow> event list \<Rightarrow> globals" where
  "pollEvents g evs = foldl dispatch g evs"

section \<open>The fragment shader\<close>

text \<open>GLSL's vectors, with the operations the shader uses.\<close>

datatype vec2 = vec2 (vx: real) (vy: real)

datatype vec4 = vec4 real real real real

definition vec2_sub :: "vec2 \<Rightarrow> vec2 \<Rightarrow> vec2" where
  "vec2_sub a b = vec2 (vx a - vx b) (vy a - vy b)"

definition vec2_add :: "vec2 \<Rightarrow> vec2 \<Rightarrow> vec2" where
  "vec2_add a b = vec2 (vx a + vx b) (vy a + vy b)"

definition vec2_scale :: "vec2 \<Rightarrow> real \<Rightarrow> vec2" where
  "vec2_scale a k = vec2 (vx a * k) (vy a * k)"

definition vec2_div :: "vec2 \<Rightarrow> real \<Rightarrow> vec2" where
  "vec2_div a k = vec2 (vx a / k) (vy a / k)"

definition dot :: "vec2 \<Rightarrow> vec2 \<Rightarrow> real" where
  "dot a b = vx a * vx b + vy a * vy b"

text \<open>The uniforms, lines 67-70.\<close>

record uniforms =
  u_resolution :: vec2
  u_offset :: vec2
  u_zoom :: real
  u_maxIterations :: int

text \<open>Line 74: the point of the complex plane for a fragment coordinate.\<close>

definition frag_c :: "uniforms \<Rightarrow> vec2 \<Rightarrow> vec2" where
  "frag_c u fragCoord =
     vec2_add (vec2_div (vec2_sub fragCoord (vec2_scale (u_resolution u) 0.5)) (u_zoom u))
       (u_offset u)"

text \<open>Line 79: one pass of the loop body on \<open>z\<close>.\<close>

definition step :: "vec2 \<Rightarrow> vec2 \<Rightarrow> vec2" where
  "step c z = vec2 (vx z * vx z - vy z * vy z + vx c) (2 * vx z * vy z + vy c)"

text \<open>Lines 78-81: the loop, from any \<open>z\<close> and \<open>iteration\<close>; it returns both.\<close>

function while_loop :: "vec2 \<Rightarrow> int \<Rightarrow> vec2 \<Rightarrow> int \<Rightarrow> vec2 \<times> int" where
  "while_loop c maxIt z iteration =
     (if dot z z < 4 \<and> iteration < maxIt
      then while_loop c maxIt (step c z) (iteration + 1)
      else (z, iteration))"
  by pat_completeness auto
termination
  by (relation "measure (\<lambda>(c, maxIt, z, iteration). nat (maxIt - iteration))") auto

declare while_loop.simps [simp del]

text \<open>Lines 75-81: the iteration count of a fragment.\<close>

definition frag_iteration :: "uniforms \<Rightarrow> vec2 \<Rightarrow> int" where
  "frag_iteration u fragCoord =
     snd (while_loop (frag_c u fragCoord) (u_maxIterations u) (vec2 0 0) 0)"

text \<open>Line 84: the normalised iteration count \<^verbatim>\<open>t\<close>.\<close>

definition frag_t :: "uniforms \<Rightarrow> vec2 \<Rightarrow> real" where
  "frag_t u fragCoord =
     real_of_int (frag_iteration u fragCoord) / real_of_int (u_maxIterations u)"

text \<open>Lines 72-86: \<^verbatim>\<open>main\<close>, returning \<^verbatim>\<open>fragColor\<close>.\<close>

definition frag_main :: "uniforms \<Rightarrow> vec2 \<Rightarrow> vec4" where
  "frag_main u fragCoord =
     (let c = frag_c u fragCoord;
          z = vec2 0 0;
          (z', iteration) = while_loop c (u_maxIterations u) z 0;
          t = real_of_int iteration / real_of_int (u_maxIterations u)
      in vec4 t (t * t) (t * 0.5) 1)"

text \<open>Lines 185-188: the uniforms a frame is drawn with.\<close>

definition set_uniforms :: "globals \<Rightarrow> uniforms" where
  "set_uniforms g =
     \<lparr> u_resolution = vec2 (real_of_int WIDTH) (real_of_int HEIGHT),
       u_offset = vec2 (offsetX g) (offsetY g),
       u_zoom = zoom g,
       u_maxIterations = maxIterations g \<rparr>"

section \<open>Iterating the loop body\<close>

text \<open>
  \<open>orbit c k\<close> is \<open>z\<close> after \<open>k\<close> passes of the shader's loop body from \<open>(0,0)\<close>.
  \<open>bounded_until c n\<close> says that the shader's bailout test holds before each of the first
  \<open>n\<close> passes, that is, the point has not escaped within \<open>n\<close> passes.
\<close>

definition orbit :: "vec2 \<Rightarrow> nat \<Rightarrow> vec2" where
  "orbit c k = (step c ^^ k) (vec2 0 0)"

definition bounded_until :: "vec2 \<Rightarrow> nat \<Rightarrow> bool" where
  "bounded_until c n = list_all (\<lambda>k. dot (orbit c k) (orbit c k) < 4) [0 ..< n]"

section \<open>The escape loop in the specification's words\<close>

text \<open>
  The evaluator's algorithm as the specification writes it, independent of the shader's
  code: one pass of the quadratic recurrence
  \<open>z \<leftarrow> (z.x\<^sup>2 - z.y\<^sup>2 + c.x, 2 * z.x * z.y + c.y)\<close>, the squared modulus \<open>|z|\<^sup>2\<close>,
  the value of \<open>z\<close> after \<open>k\<close> passes from \<open>z = (0,0)\<close>, and the condition that
  \<open>|z|\<^sup>2 < 4\<close> holds before each of the first \<open>n\<close> passes.
\<close>

definition recurrence :: "vec2 \<Rightarrow> vec2 \<Rightarrow> vec2" where
  "recurrence c z = vec2 ((vx z)\<^sup>2 - (vy z)\<^sup>2 + vx c) (2 * vx z * vy z + vy c)"

definition modulus_squared :: "vec2 \<Rightarrow> real" where
  "modulus_squared z = (vx z)\<^sup>2 + (vy z)\<^sup>2"

fun passes :: "vec2 \<Rightarrow> nat \<Rightarrow> vec2" where
  "passes c 0 = vec2 0 0"
| "passes c (Suc k) = recurrence c (passes c k)"

definition inside_until :: "vec2 \<Rightarrow> nat \<Rightarrow> bool" where
  "inside_until c n = list_all (\<lambda>k. modulus_squared (passes c k) < 4) [0 ..< n]"

section \<open>The view-state controller\<close>

subsection \<open>Scrolling\<close>

lemma scroll_up_zoom:
  "0 < yoffset \<Longrightarrow> zoom (scrollCallback g window xoffset yoffset) = zoom g * 1.1"
  by (simp add: scrollCallback_def)

lemma scroll_down_zoom:
  "yoffset < 0 \<Longrightarrow> zoom (scrollCallback g window xoffset yoffset) = zoom g / 1.1"
  by (simp add: scrollCallback_def)

lemma scroll_up_iterated:
  "0 < yoffset \<Longrightarrow>
     zoom (((\<lambda>g. scrollCallback g window xoffset yoffset) ^^ n) g) = zoom g * 1.1 ^ n"
  by (induction n) (simp_all add: scroll_up_zoom)

lemma scroll_down_iterated:
  "yoffset < 0 \<Longrightarrow>
     zoom (((\<lambda>g. scrollCallback g window xoffset yoffset) ^^ n) g) = zoom g / 1.1 ^ n"
  by (induction n) (simp_all add: scroll_down_zoom)

lemma scroll_frame:
  "scrollCallback g window xoffset yoffset
     = g\<lparr>zoom := zoom (scrollCallback g window xoffset yoffset)\<rparr>"
  by (simp add: scrollCallback_def)

text \<open>
  Claim C2. A scroll with a positive vertical offset (forward, up) multiplies \<open>zoom\<close> by
  1.1, one with a negative vertical offset (backward, down) divides it by 1.1, whatever
  the current zoom is. The callback changes no other global: its result is the old state
  with only \<open>zoom\<close> replaced. No bound is applied: \<open>n\<close> scrolls in one direction give
  exactly \<open>zoom * 1.1 ^ n\<close>, respectively \<open>zoom / 1.1 ^ n\<close>.
\<close>

theorem scroll_zoom:
  "(0 < yoffset \<longrightarrow> zoom (scrollCallback g window xoffset yoffset) = zoom g * 1.1) \<and>
   (yoffset < 0 \<longrightarrow> zoom (scrollCallback g window xoffset yoffset) = zoom g / 1.1) \<and>
   scrollCallback g window xoffset yoffset
     = g\<lparr>zoom := zoom (scrollCallback g window xoffset yoffset)\<rparr> \<and>
   (0 < yoffset \<longrightarrow>
      zoom (((\<lambda>g. scrollCallback g window xoffset yoffset) ^^ n) g) = zoom g * 1.1 ^ n) \<and>
   (yoffset < 0 \<longrightarrow>
      zoom (((\<lambda>g. scrollCallback g window xoffset yoffset) ^^ n) g) = zoom g / 1.1 ^ n)"
  using scroll_frame [of g window xoffset yoffset]
  by (simp add: scroll_up_zoom scroll_down_zoom scroll_up_iterated scroll_down_iterated)

theorem scroll_zoom_witness:
  "zoom (scrollCallback initial \<lparr>cursorX = 0, cursorY = 0\<rparr> 0 1) = 220 \<and>
   zoom (scrollCallback initial \<lparr>cursorX = 0, cursorY = 0\<rparr> 0 (- 1)) = 2000 / 11 \<and>
   scrollCallback initial \<lparr>cursorX = 0, cursorY = 0\<rparr> 0 1 = initial\<lparr>zoom := 220\<rparr> \<and>
   zoom (((\<lambda>g. scrollCallback g \<lparr>cursorX = 0, cursorY = 0\<rparr> 0 1) ^^ 2) initial) = 242 \<and>
   zoom (((\<lambda>g. scrollCallback g \<lparr>cursorX = 0, cursorY = 0\<rparr> 0 (- 1)) ^^ 2) initial)
     = 20000 / 121"
proof -
  let ?w = "\<lparr>cursorX = 0, cursorY = 0\<rparr>"
  have z: "zoom initial = 200"
    by (simp add: initial_def)
  note inst = scroll_zoom [of 1 initial ?w 0 2]
  have up: "zoom (scrollCallback initial ?w 0 1) = 220"
    and up2: "zoom (((\<lambda>g. scrollCallback g ?w 0 1) ^^ 2) initial) = 242"
    using inst by (simp_all add: z power2_eq_square)
  have frame: "scrollCallback initial ?w 0 1
                 = initial\<lparr>zoom := zoom (scrollCallback initial ?w 0 1)\<rparr>"
    by (rule inst [THEN conjunct2, THEN conjunct2, THEN conjunct1])
  have down: "zoom (scrollCallback initial ?w 0 (- 1)) = 2000 / 11"
    and down2: "zoom (((\<lambda>g. scrollCallback g ?w 0 (- 1)) ^^ 2) initial) = 20000 / 121"
    using scroll_zoom [of "- 1" initial ?w 0 2] by (simp_all add: z power2_eq_square)
  from frame have "scrollCallback initial ?w 0 1 = initial\<lparr>zoom := 220\<rparr>"
    unfolding up .
  with up up2 down down2 show ?thesis
    by (intro conjI)
qed

text \<open>
  Claim C10. A scroll whose vertical offset is exactly zero is neither of the two cases
  of \<^verbatim>\<open>scrollCallback\<close>: it leaves \<open>zoom\<close> and every other global as they were, also
  when it arrives through the event dispatch.
\<close>

theorem scroll_zero_noop:
  "scrollCallback g window xoffset 0 = g \<and> dispatch g (Scroll window xoffset 0) = g"
  by (simp add: scrollCallback_def)

subsection \<open>Dragging\<close>

text \<open>
  Claim C3. A cursor move while dragging records the new cursor position in
  \<^verbatim>\<open>lastMouseX\<close>, \<^verbatim>\<open>lastMouseY\<close>, subtracts \<open>dx / zoom\<close> from \<open>offsetX\<close> and adds
  \<open>dy / zoom\<close> to \<open>offsetY\<close>, where \<open>dx\<close> and \<open>dy\<close> are the differences to the last
  recorded position; \<open>zoom\<close>, \<open>maxIterations\<close> and the drag flag stay as they are. With
  a positive zoom (the invariant of the view state, established in the last subsection), a
  positive horizontal drag therefore decreases \<open>offsetX\<close> and a positive vertical drag
  increases \<open>offsetY\<close>.
\<close>

theorem drag_moves_offset:
  assumes "isDragging g"
  shows "lastMouseX (cursorPositionCallback g window xpos ypos) = xpos \<and>
         lastMouseY (cursorPositionCallback g window xpos ypos) = ypos \<and>
         offsetX (cursorPositionCallback g window xpos ypos)
           = offsetX g - (xpos - lastMouseX g) / zoom g \<and>
         offsetY (cursorPositionCallback g window xpos ypos)
           = offsetY g + (ypos - lastMouseY g) / zoom g \<and>
         zoom (cursorPositionCallback g window xpos ypos) = zoom g \<and>
         maxIterations (cursorPositionCallback g window xpos ypos) = maxIterations g \<and>
         isDragging (cursorPositionCallback g window xpos ypos) \<and>
         (0 < zoom g \<longrightarrow>
            (lastMouseX g < xpos \<longrightarrow>
               offsetX (cursorPositionCallback g window xpos ypos) < offsetX g) \<and>
            (lastMouseY g < ypos \<longrightarrow>
               offsetY g < offsetY (cursorPositionCallback g window xpos ypos)))"
  using assms by (simp add: cursorPositionCallback_def Let_def)

theorem drag_moves_offset_witness:
  "offsetX (cursorPositionCallback (initial\<lparr>isDragging := True\<rparr>)
      \<lparr>cursorX = 100, cursorY = 50\<rparr> 100 50) = - 1 \<and>
   offsetY (cursorPositionCallback (initial\<lparr>isDragging := True\<rparr>)
      \<lparr>cursorX = 100, cursorY = 50\<rparr> 100 50) = 1 / 4 \<and>
   offsetX (cursorPositionCallback (initial\<lparr>isDragging := True\<rparr>)
      \<lparr>cursorX = 100, cursorY = 50\<rparr> 100 50) < offsetX initial \<and>
   offsetY initial < offsetY (cursorPositionCallback (initial\<lparr>isDragging := True\<rparr>)
      \<lparr>cursorX = 100, cursorY = 50\<rparr> 100 50)"
  using drag_moves_offset [of "initial\<lparr>isDragging := True\<rparr>"
          "\<lparr>cursorX = 100, cursorY = 50\<rparr>" 100 50]
  by (simp add: initial_def)

text \<open>
  Claim C8. While no drag is active, a button release (of any button, with any
  modifiers) and a cursor move each leave the whole global state unchanged: zoom, offset,
  drag flag and last cursor position.
\<close>

theorem inactive_events_noop:
  assumes "\<not> isDragging g"
  shows "mouseButtonCallback g window button GLFW_RELEASE mods = g \<and>
         cursorPositionCallback g window' xpos ypos = g"
  using assms
  by (simp add: mouseButtonCallback_def cursorPositionCallback_def GLFW_RELEASE_def GLFW_PRESS_def)

theorem inactive_events_noop_witness:
  "\<not> isDragging initial \<and>
   mouseButtonCallback initial \<lparr>cursorX = 3, cursorY = 4\<rparr> GLFW_MOUSE_BUTTON_LEFT GLFW_RELEASE 0
     = initial \<and>
   cursorPositionCallback initial \<lparr>cursorX = 3, cursorY = 4\<rparr> 3 4 = initial"
proof -
  have h: "\<not> isDragging initial" by (simp add: initial_def)
  show ?thesis
    using h inactive_events_noop [OF h, of "\<lparr>cursorX = 3, cursorY = 4\<rparr>" GLFW_MOUSE_BUTTON_LEFT 0
            "\<lparr>cursorX = 3, cursorY = 4\<rparr>" 3 4]
    by simp
qed

subsection \<open>The zoom invariant\<close>

lemma zoom_dispatch_pos: "0 < zoom g \<Longrightarrow> 0 < zoom (dispatch g e)"
  by (cases e)
     (simp_all add: scrollCallback_def mouseButtonCallback_def cursorPositionCallback_def Let_def)

lemma zoom_foldl_pos: "0 < zoom g \<Longrightarrow> 0 < zoom (foldl dispatch g evs)"
  by (induction evs arbitrary: g) (simp_all add: zoom_dispatch_pos)

text \<open>
  Claim C4. From the initial globals (\<open>zoom = 200\<close>), \<open>zoom\<close> is strictly positive after
  every sequence of scroll, button and cursor events: the only writes to it multiply or
  divide it by 1.1.
\<close>

theorem zoom_stays_positive: "0 < zoom (pollEvents initial evs)"
  unfolding pollEvents_def
  by (rule zoom_foldl_pos) (simp add: initial_def)

section \<open>The per-pixel escape-time evaluator\<close>

subsection \<open>The loop\<close>

lemma while_loop_lower: "iteration \<le> snd (while_loop c maxIt z iteration)"
proof (induction c maxIt z iteration rule: while_loop.induct)
  case (1 c maxIt z iteration)
  show ?case
  proof (cases "dot z z < 4 \<and> iteration < maxIt")
    case True
    with 1 have "iteration + 1 \<le> snd (while_loop c maxIt (step c z) (iteration + 1))"
      by simp
    with True show ?thesis
      by (subst while_loop.simps) simp
  next
    case False
    then show ?thesis
      by (subst while_loop.simps) auto
  qed
qed

lemma while_loop_upper:
  "iteration \<le> maxIt \<Longrightarrow> snd (while_loop c maxIt z iteration) \<le> maxIt"
proof (induction c maxIt z iteration rule: while_loop.induct)
  case (1 c maxIt z iteration)
  show ?case
  proof (cases "dot z z < 4 \<and> iteration < maxIt")
    case True
    with 1 have "snd (while_loop c maxIt (step c z) (iteration + 1)) \<le> maxIt"
      by simp
    with True show ?thesis
      by (subst while_loop.simps) simp
  next
    case False
    with 1 show ?thesis
      by (subst while_loop.simps) auto
  qed
qed

text \<open>The \<open>z\<close> the loop ends with is the start value after as many passes as were counted.\<close>

lemma while_loop_fst:
  "fst (while_loop c maxIt z iteration)
     = (step c ^^ nat (snd (while_loop c maxIt z iteration) - iteration)) z"
proof (induction c maxIt z iteration rule: while_loop.induct)
  case (1 c maxIt z iteration)
  show ?case
  proof (cases "dot z z < 4 \<and> iteration < maxIt")
    case True
    let ?r = "while_loop c maxIt (step c z) (iteration + 1)"
    have eq: "while_loop c maxIt z iteration = ?r"
      using True by (subst while_loop.simps) simp
    have "iteration + 1 \<le> snd ?r"
      by (rule while_loop_lower)
    then have "nat (snd ?r - iteration) = Suc (nat (snd ?r - (iteration + 1)))"
      by simp
    moreover have "fst ?r = (step c ^^ nat (snd ?r - (iteration + 1))) (step c z)"
      using 1 True by simp
    ultimately show ?thesis
      by (simp add: eq funpow_swap1)
  next
    case False
    then show ?thesis
      by (subst (1 2) while_loop.simps) auto
  qed
qed

text \<open>Every pass the loop made was entered with the bailout test true.\<close>

lemma while_loop_prefix:
  "int k < snd (while_loop c maxIt z iteration) - iteration
     \<Longrightarrow> dot ((step c ^^ k) z) ((step c ^^ k) z) < 4"
proof (induction c maxIt z iteration arbitrary: k rule: while_loop.induct)
  case (1 c maxIt z iteration)
  show ?case
  proof (cases "dot z z < 4 \<and> iteration < maxIt")
    case True
    let ?r = "while_loop c maxIt (step c z) (iteration + 1)"
    have eq: "while_loop c maxIt z iteration = ?r"
      using True by (subst while_loop.simps) simp
    show ?thesis
    proof (cases k)
      case 0
      with True show ?thesis by simp
    next
      case (Suc j)
      with "1.prems" eq have "int j < snd ?r - (iteration + 1)"
        by simp
      with "1.IH" True have "dot ((step c ^^ j) (step c z)) ((step c ^^ j) (step c z)) < 4"
        by simp
      with Suc show ?thesis
        by (simp add: funpow_swap1)
    qed
  next
    case False
    then have "while_loop c maxIt z iteration = (z, iteration)"
      by (subst while_loop.simps) auto
    with "1.prems" show ?thesis by simp
  qed
qed

text \<open>A loop that stops below the budget stops because the bailout test failed.\<close>

lemma while_loop_exit:
  "snd (while_loop c maxIt z iteration) < maxIt
     \<Longrightarrow> \<not> dot (fst (while_loop c maxIt z iteration)) (fst (while_loop c maxIt z iteration)) < 4"
proof (induction c maxIt z iteration rule: while_loop.induct)
  case (1 c maxIt z iteration)
  show ?case
  proof (cases "dot z z < 4 \<and> iteration < maxIt")
    case True
    then have eq: "while_loop c maxIt z iteration
                     = while_loop c maxIt (step c z) (iteration + 1)"
      by (subst while_loop.simps) simp
    with 1 True show ?thesis by simp
  next
    case False
    then have eq: "while_loop c maxIt z iteration = (z, iteration)"
      by (subst while_loop.simps) auto
    with "1.prems" False show ?thesis by auto
  qed
qed

text \<open>A loop whose bailout test never fails within the budget uses the budget up.\<close>

lemma while_loop_full:
  "iteration \<le> maxIt
     \<Longrightarrow> (\<And>k. iteration + int k < maxIt \<Longrightarrow> dot ((step c ^^ k) z) ((step c ^^ k) z) < 4)
     \<Longrightarrow> snd (while_loop c maxIt z iteration) = maxIt"
proof (induction c maxIt z iteration rule: while_loop.induct)
  case (1 c maxIt z iteration)
  show ?case
  proof (cases "iteration < maxIt")
    case True
    with "1.prems"(2) [of 0] have d: "dot z z < 4" by simp
    have eq: "while_loop c maxIt z iteration
                = while_loop c maxIt (step c z) (iteration + 1)"
      using True d by (subst while_loop.simps) simp
    have "dot ((step c ^^ k) (step c z)) ((step c ^^ k) (step c z)) < 4"
      if "iteration + 1 + int k < maxIt" for k
      using "1.prems"(2) [of "Suc k"] that by (simp add: funpow_swap1)
    with "1.IH" True d have "snd (while_loop c maxIt (step c z) (iteration + 1)) = maxIt"
      by simp
    with eq show ?thesis by simp
  next
    case False
    with "1.prems"(1) show ?thesis
      by (subst while_loop.simps) auto
  qed
qed

lemma step_zero: "step c (vec2 0 0) = c"
  by (simp add: step_def)

lemma while_loop_first_pass:
  "0 < maxIt \<Longrightarrow> while_loop c maxIt (vec2 0 0) 0 = while_loop c maxIt c 1"
  by (subst while_loop.simps) (simp add: dot_def step_zero)

subsection \<open>Orbits\<close>

lemma bounded_until_iff:
  "bounded_until c n \<longleftrightarrow> (\<forall>k < n. dot (orbit c k) (orbit c k) < 4)"
  by (auto simp: bounded_until_def list_all_iff)

lemma orbit_Suc: "orbit c (Suc k) = step c (orbit c k)"
  by (simp add: orbit_def)

lemma orbit_zero: "orbit (vec2 0 0) k = vec2 0 0"
  by (induction k) (simp_all add: orbit_Suc step_def, simp add: orbit_def)

lemma zero_bounded: "bounded_until (vec2 0 0) n"
  by (simp add: bounded_until_iff orbit_zero dot_def)

lemma square_le_of_abs_le:
  fixes x :: real
  assumes "\<bar>x\<bar> \<le> b"
  shows "x * x \<le> b * b"
proof -
  have "\<bar>x\<bar> * \<bar>x\<bar> \<le> b * b"
    using assms by (intro mult_mono) simp_all
  then show ?thesis by simp
qed

text \<open>
  The orbit for \<open>c = (-0.5, 0)\<close> stays on the real axis, in the interval \<open>[-0.5, 0]\<close>:
  from \<open>x\<close> there, \<open>x\<^sup>2 - 0.5\<close> lies in \<open>[-0.5, -0.25]\<close>.
\<close>

lemma orbit_minus_half:
  "vy (orbit (vec2 (- 0.5) 0) k) = 0 \<and>
   - 0.5 \<le> vx (orbit (vec2 (- 0.5) 0) k) \<and> vx (orbit (vec2 (- 0.5) 0) k) \<le> 0"
proof (induction k)
  case 0
  show ?case by (simp add: orbit_def)
next
  case (Suc k)
  let ?x = "vx (orbit (vec2 (- 0.5) 0) k)"
  from Suc have "\<bar>?x\<bar> \<le> 1 / 2" by simp
  then have "?x * ?x \<le> (1 / 2) * (1 / 2)"
    by (rule square_le_of_abs_le)
  moreover have "0 \<le> ?x * ?x" by simp
  ultimately show ?case
    using Suc by (simp add: orbit_Suc step_def)
qed

lemma minus_half_bounded: "bounded_until (vec2 (- 0.5) 0) n"
proof -
  have "dot (orbit (vec2 (- 0.5) 0) k) (orbit (vec2 (- 0.5) 0) k) < 4" for k
  proof -
    let ?x = "vx (orbit (vec2 (- 0.5) 0) k)"
    from orbit_minus_half [of k] have "\<bar>?x\<bar> \<le> 1" and y: "vy (orbit (vec2 (- 0.5) 0) k) = 0"
      by simp_all
    then have "?x * ?x \<le> 1 * 1"
      by (intro square_le_of_abs_le)
    with y show ?thesis by (simp add: dot_def)
  qed
  then show ?thesis by (simp add: bounded_until_iff)
qed

subsection \<open>The iteration count of a fragment\<close>

lemma frag_iteration_range:
  "0 \<le> u_maxIterations u
     \<Longrightarrow> 0 \<le> frag_iteration u fragCoord \<and> frag_iteration u fragCoord \<le> u_maxIterations u"
  unfolding frag_iteration_def
  using while_loop_lower [of 0 "frag_c u fragCoord" "u_maxIterations u" "vec2 0 0"]
        while_loop_upper [of 0 "u_maxIterations u" "frag_c u fragCoord" "vec2 0 0"]
  by simp

lemma frag_iteration_prefix:
  "bounded_until (frag_c u fragCoord) (nat (frag_iteration u fragCoord))"
  unfolding bounded_until_iff orbit_def frag_iteration_def
  using while_loop_prefix [of _ "frag_c u fragCoord" "u_maxIterations u" "vec2 0 0" 0]
  by simp

lemma frag_iteration_exit:
  "frag_iteration u fragCoord < u_maxIterations u
     \<Longrightarrow> \<not> dot (orbit (frag_c u fragCoord) (nat (frag_iteration u fragCoord)))
              (orbit (frag_c u fragCoord) (nat (frag_iteration u fragCoord))) < 4"
  unfolding orbit_def frag_iteration_def
  using while_loop_exit [of "frag_c u fragCoord" "u_maxIterations u" "vec2 0 0" 0]
        while_loop_fst [of "frag_c u fragCoord" "u_maxIterations u" "vec2 0 0" 0]
  by simp

lemma frag_iteration_full:
  assumes "0 \<le> u_maxIterations u"
    and "bounded_until (frag_c u fragCoord) (nat (u_maxIterations u))"
  shows "frag_iteration u fragCoord = u_maxIterations u"
  unfolding frag_iteration_def
proof (rule while_loop_full)
  show "0 \<le> u_maxIterations u" by fact
next
  fix k
  assume "0 + int k < u_maxIterations u"
  then have "k < nat (u_maxIterations u)" by simp
  with assms(2) show "dot ((step (frag_c u fragCoord) ^^ k) (vec2 0 0))
                          ((step (frag_c u fragCoord) ^^ k) (vec2 0 0)) < 4"
    by (simp add: bounded_until_iff orbit_def)
qed

lemma escape_first_pass:
  assumes "2 \<le> sqrt (dot c c)" and "1 \<le> maxIt"
  shows "while_loop c maxIt (vec2 0 0) 0 = (c, 1)"
proof -
  from assms(1) have "sqrt 4 \<le> sqrt (dot c c)" by simp
  then have "\<not> dot c c < 4" by (simp only: real_sqrt_le_iff not_less)
  then have "while_loop c maxIt c 1 = (c, 1)"
    by (subst while_loop.simps) simp
  with assms(2) show ?thesis
    by (simp add: while_loop_first_pass)
qed

text \<open>The uniforms of the initial globals, and the point they give a fragment.\<close>

lemma frag_c_initial:
  "frag_c (set_uniforms initial) (vec2 px py) = vec2 ((px - 400) / 200 - 0.5) ((py - 400) / 200)"
  by (simp add: frag_c_def set_uniforms_def initial_def WIDTH_def HEIGHT_def
        vec2_add_def vec2_div_def vec2_sub_def vec2_scale_def)

lemma maxIterations_initial: "u_maxIterations (set_uniforms initial) = 1500"
  by (simp add: set_uniforms_def initial_def)

text \<open>
  The shader's loop body and bailout test are the specification's recurrence and squared
  modulus, so the loop walks the specification's sequence of passes.
\<close>

lemma step_recurrence: "step c z = recurrence c z"
  by (simp add: step_def recurrence_def power2_eq_square)

lemma dot_modulus_squared: "dot z z = modulus_squared z"
  by (simp add: dot_def modulus_squared_def power2_eq_square)

lemma orbit_passes: "orbit c k = passes c k"
  by (induction k) (simp_all add: orbit_def step_recurrence)

lemma inside_until_iff:
  "inside_until c n \<longleftrightarrow> (\<forall>k < n. modulus_squared (passes c k) < 4)"
  by (auto simp: inside_until_def list_all_iff)

lemma bounded_until_inside: "bounded_until c n = inside_until c n"
  by (simp add: bounded_until_iff inside_until_iff orbit_passes dot_modulus_squared)

lemma passes_one_one:
  "passes (vec2 1 1) 0 = vec2 0 0" "passes (vec2 1 1) 1 = vec2 1 1"
  "passes (vec2 1 1) 2 = vec2 1 3"
proof -
  show "passes (vec2 1 1) 0 = vec2 0 0" by simp
  show p1: "passes (vec2 1 1) 1 = vec2 1 1"
    by (simp add: recurrence_def)
  have "passes (vec2 1 1) (Suc 1) = recurrence (vec2 1 1) (passes (vec2 1 1) 1)"
    by (rule passes.simps)
  then show "passes (vec2 1 1) 2 = vec2 1 3"
    by (simp add: p1 recurrence_def numeral_2_eq_2)
qed

lemma passes_zero: "passes (vec2 0 0) k = vec2 0 0"
  by (induction k) (simp_all add: recurrence_def)

lemma zero_inside: "inside_until (vec2 0 0) n"
  by (simp add: inside_until_iff passes_zero modulus_squared_def)

text \<open>
  Claim C1. With a positive iteration budget, the iteration count of a fragment is what
  the specification's algorithm gives: starting from \<open>z = (0,0)\<close> and the count 0, the
  loop repeats \<open>z \<leftarrow> (z.x\<^sup>2 - z.y\<^sup>2 + c.x, 2 * z.x * z.y + c.y)\<close>, counting each pass,
  exactly while \<open>|z|\<^sup>2 < 4\<close> and the count is below the budget. The count lies between 0
  and \<open>u_maxIterations\<close>; the loop's final \<open>z\<close> is the value of the recurrence after that
  many passes; \<open>|z|\<^sup>2 < 4\<close> held before each of these passes; if the count is below the
  budget, \<open>|z|\<^sup>2 < 4\<close> fails at the final \<open>z\<close>; and a point that does not escape within
  the budget gets the count \<open>u_maxIterations\<close>. The recurrence and the modulus are the
  specification-side definitions \<open>recurrence\<close> and \<open>modulus_squared\<close>, not the shader's
  \<open>step\<close> and \<open>dot\<close>.
\<close>

theorem escape_loop_correct:
  assumes "0 < u_maxIterations u"
  shows "0 \<le> frag_iteration u fragCoord \<and>
         frag_iteration u fragCoord \<le> u_maxIterations u \<and>
         fst (while_loop (frag_c u fragCoord) (u_maxIterations u) (vec2 0 0) 0)
           = passes (frag_c u fragCoord) (nat (frag_iteration u fragCoord)) \<and>
         inside_until (frag_c u fragCoord) (nat (frag_iteration u fragCoord)) \<and>
         (frag_iteration u fragCoord < u_maxIterations u \<longrightarrow>
            \<not> modulus_squared
                 (passes (frag_c u fragCoord) (nat (frag_iteration u fragCoord))) < 4) \<and>
         (inside_until (frag_c u fragCoord) (nat (u_maxIterations u)) \<longrightarrow>
            frag_iteration u fragCoord = u_maxIterations u)"
proof -
  have "fst (while_loop (frag_c u fragCoord) (u_maxIterations u) (vec2 0 0) 0)
          = passes (frag_c u fragCoord) (nat (frag_iteration u fragCoord))"
    using while_loop_fst [of "frag_c u fragCoord" "u_maxIterations u" "vec2 0 0" 0]
    by (simp add: orbit_passes [symmetric] orbit_def frag_iteration_def)
  moreover have "inside_until (frag_c u fragCoord) (nat (frag_iteration u fragCoord))"
    using frag_iteration_prefix [of u fragCoord] by (simp add: bounded_until_inside)
  moreover have "\<not> modulus_squared
                 (passes (frag_c u fragCoord) (nat (frag_iteration u fragCoord))) < 4"
    if "frag_iteration u fragCoord < u_maxIterations u"
    using frag_iteration_exit [OF that]
    by (simp add: orbit_passes dot_modulus_squared)
  moreover have "frag_iteration u fragCoord = u_maxIterations u"
    if "inside_until (frag_c u fragCoord) (nat (u_maxIterations u))"
    using assms that frag_iteration_full [of u fragCoord]
    by (simp add: bounded_until_inside)
  ultimately show ?thesis
    using assms frag_iteration_range [of u fragCoord] by simp
qed

theorem escape_loop_correct_witness:
  "0 < u_maxIterations (set_uniforms initial) \<and>
   frag_c (set_uniforms initial) (vec2 700 600) = vec2 1 1 \<and>
   frag_iteration (set_uniforms initial) (vec2 700 600) = 2 \<and>
   fst (while_loop (vec2 1 1) 1500 (vec2 0 0) 0) = vec2 1 3 \<and>
   inside_until (vec2 1 1) 2 \<and>
   \<not> modulus_squared (vec2 1 3) < 4 \<and>
   inside_until (vec2 0 0) 1500 \<and>
   frag_iteration (set_uniforms initial) (vec2 500 400) = 1500"
proof -
  let ?u = "set_uniforms initial"
  let ?n = "frag_iteration ?u (vec2 700 600)"
  have m: "0 < u_maxIterations ?u"
    by (simp add: maxIterations_initial)
  have c1: "frag_c ?u (vec2 700 600) = vec2 1 1"
    by (simp add: frag_c_initial)
  have c2: "frag_c ?u (vec2 500 400) = vec2 0 0"
    by (simp add: frag_c_initial)
  note far = escape_loop_correct [OF m, of "vec2 700 600", unfolded c1 maxIterations_initial]
  note near = escape_loop_correct [OF m, of "vec2 500 400", unfolded c2 maxIterations_initial]
  from far have lo: "0 \<le> ?n" and ins: "inside_until (vec2 1 1) (nat ?n)"
    and fin: "fst (while_loop (vec2 1 1) 1500 (vec2 0 0) 0) = passes (vec2 1 1) (nat ?n)"
    and ex: "?n < 1500 \<Longrightarrow> \<not> modulus_squared (passes (vec2 1 1) (nat ?n)) < 4"
    by simp_all
  have "\<not> 2 < nat ?n"
  proof
    assume "2 < nat ?n"
    with ins have "modulus_squared (passes (vec2 1 1) 2) < 4"
      by (simp add: inside_until_iff)
    then show False
      by (simp add: passes_one_one modulus_squared_def)
  qed
  then have le: "nat ?n \<le> 2" by simp
  with lo have "?n < 1500" by simp
  then have esc: "\<not> modulus_squared (passes (vec2 1 1) (nat ?n)) < 4"
    by (rule ex)
  have "nat ?n \<noteq> 0"
    using esc by (auto simp: modulus_squared_def)
  moreover have "nat ?n \<noteq> 1"
  proof
    assume one: "nat ?n = 1"
    from esc [unfolded one] show False
      by (simp add: recurrence_def modulus_squared_def)
  qed
  ultimately have "nat ?n = 2"
    using le by arith
  with lo have n: "?n = 2" by simp
  have z: "fst (while_loop (vec2 1 1) 1500 (vec2 0 0) 0) = vec2 1 3"
    using fin by (simp add: n passes_one_one)
  have i2: "inside_until (vec2 1 1) 2"
    using ins by (simp add: n)
  have e2: "\<not> modulus_squared (vec2 1 3) < 4"
    by (simp add: modulus_squared_def)
  have b: "inside_until (vec2 0 0) 1500"
    by (rule zero_inside)
  with near have "frag_iteration ?u (vec2 500 400) = 1500"
    by simp
  with m c1 n z i2 e2 b show ?thesis
    by (intro conjI)
qed

text \<open>
  Claim C6. For a point \<open>c\<close> at distance at least 2 from the origin and a budget of at
  least one iteration, the first pass sets \<open>z = c\<close>, the bailout test \<open>|z|\<^sup>2 < 4\<close> then fails,
  and the loop ends with the count 1; so does the iteration count of every fragment that
  is mapped to \<open>c\<close>.
\<close>

theorem far_point_escapes_at_one:
  assumes "2 \<le> sqrt (dot c c)" and "1 \<le> maxIt"
  shows "step c (vec2 0 0) = c \<and> \<not> dot c c < 4 \<and>
         while_loop c maxIt (vec2 0 0) 0 = (c, 1) \<and>
         (frag_c u fragCoord = c \<and> u_maxIterations u = maxIt \<longrightarrow> frag_iteration u fragCoord = 1)"
proof -
  from assms(1) have "sqrt 4 \<le> sqrt (dot c c)" by simp
  then have "\<not> dot c c < 4"
    by (simp only: real_sqrt_le_iff not_less)
  with assms show ?thesis
    by (simp add: escape_first_pass step_zero frag_iteration_def)
qed

theorem far_point_escapes_at_one_witness:
  "2 \<le> sqrt (dot (vec2 3 0) (vec2 3 0)) \<and>
   while_loop (vec2 3 0) 1500 (vec2 0 0) 0 = (vec2 3 0, 1) \<and>
   frag_iteration (set_uniforms initial) (vec2 1100 400) = 1"
proof -
  have h: "2 \<le> sqrt (dot (vec2 3 0) (vec2 3 0))"
    by (rule real_le_rsqrt) (simp add: dot_def)
  have c: "frag_c (set_uniforms initial) (vec2 1100 400) = vec2 3 0"
    by (simp add: frag_c_initial)
  show ?thesis
    using h c far_point_escapes_at_one [OF h, of 1500 "set_uniforms initial" "vec2 1100 400"]
    by (simp add: maxIterations_initial)
qed

subsection \<open>The colour of a fragment\<close>

lemma frag_main_t:
  "frag_main u fragCoord
     = vec4 (frag_t u fragCoord) (frag_t u fragCoord * frag_t u fragCoord)
         (frag_t u fragCoord * 0.5) 1"
  by (simp add: frag_main_def frag_iteration_def frag_t_def Let_def split: prod.split)

lemma frag_t_range:
  assumes "0 < u_maxIterations u"
  shows "0 \<le> frag_t u fragCoord \<and> frag_t u fragCoord \<le> 1"
  using assms frag_iteration_range [of u fragCoord]
  by (simp add: frag_t_def)

lemma frag_t_full:
  assumes "0 < u_maxIterations u"
    and "bounded_until (frag_c u fragCoord) (nat (u_maxIterations u))"
  shows "frag_t u fragCoord = 1"
proof -
  from assms have "frag_iteration u fragCoord = u_maxIterations u"
    by (simp add: frag_iteration_full)
  with assms(1) show ?thesis
    by (simp add: frag_t_def)
qed

text \<open>
  Claim C5. With \<open>t\<close> the iteration count divided by the budget, the colour of a fragment
  is \<open>(t, t\<^sup>2, t * 0.5)\<close> with alpha 1. For a positive budget \<open>t\<close> lies in \<open>[0, 1]\<close>, and a
  fragment whose point does not escape within the budget has the count
  \<open>u_maxIterations\<close>, \<open>t = 1\<close> and the colour \<open>(1, 1, 0.5)\<close>.
\<close>

theorem color_from_iteration:
  "frag_main u fragCoord
     = vec4 (frag_t u fragCoord) ((frag_t u fragCoord)\<^sup>2) (frag_t u fragCoord * 0.5) 1 \<and>
   (0 < u_maxIterations u \<longrightarrow> 0 \<le> frag_t u fragCoord \<and> frag_t u fragCoord \<le> 1) \<and>
   (0 < u_maxIterations u \<and> bounded_until (frag_c u fragCoord) (nat (u_maxIterations u)) \<longrightarrow>
      frag_iteration u fragCoord = u_maxIterations u \<and> frag_t u fragCoord = 1 \<and>
      frag_main u fragCoord = vec4 1 1 0.5 1)"
proof (intro conjI impI)
  show "frag_main u fragCoord
     = vec4 (frag_t u fragCoord) ((frag_t u fragCoord)\<^sup>2) (frag_t u fragCoord * 0.5) 1"
    by (simp only: frag_main_t power2_eq_square)
next
  assume "0 < u_maxIterations u"
  then show "0 \<le> frag_t u fragCoord" "frag_t u fragCoord \<le> 1"
    by (simp_all add: frag_t_range)
next
  assume a: "0 < u_maxIterations u \<and> bounded_until (frag_c u fragCoord) (nat (u_maxIterations u))"
  then show "frag_iteration u fragCoord = u_maxIterations u"
    by (simp add: frag_iteration_full)
  from a have t: "frag_t u fragCoord = 1"
    by (simp add: frag_t_full)
  then show "frag_t u fragCoord = 1" .
  from t show "frag_main u fragCoord = vec4 1 1 0.5 1"
    by (simp add: frag_main_t)
qed

theorem color_from_iteration_witness:
  "frag_t (set_uniforms initial) (vec2 500 400) = 1 \<and>
   frag_main (set_uniforms initial) (vec2 500 400) = vec4 1 1 0.5 1 \<and>
   0 \<le> frag_t (set_uniforms initial) (vec2 1100 400) \<and>
   frag_t (set_uniforms initial) (vec2 1100 400) \<le> 1"
proof -
  have m: "0 < u_maxIterations (set_uniforms initial)"
    by (simp add: maxIterations_initial)
  have "frag_c (set_uniforms initial) (vec2 500 400) = vec2 0 0"
    by (simp add: frag_c_initial)
  then have b: "bounded_until (frag_c (set_uniforms initial) (vec2 500 400))
                  (nat (u_maxIterations (set_uniforms initial)))"
    by (simp add: zero_bounded)
  show ?thesis
    using m b color_from_iteration [of "set_uniforms initial" "vec2 500 400"]
      color_from_iteration [of "set_uniforms initial" "vec2 1100 400"]
    by simp
qed

subsection \<open>The centre of the image\<close>

lemma frag_c_center:
  "u_zoom u \<noteq> 0 \<Longrightarrow> frag_c u (vec2_scale (u_resolution u) 0.5) = u_offset u"
  by (simp add: frag_c_def vec2_add_def vec2_div_def vec2_sub_def)

text \<open>
  Claim C7. For every resolution and every view state (with a non-zero zoom, so that the
  quotient is a number), the fragment coordinate at half the resolution is mapped to
  \<open>u_offset\<close> exactly. With the uniforms of the initial globals (resolution 800 x 800,
  zoom 200, offset \<open>(-0.5, 0)\<close>, budget 1500) that coordinate is \<open>(400, 400)\<close>, it is mapped
  to \<open>(-0.5, 0)\<close>, and its iteration count is the whole budget, 1500. The statement is
  about the coordinate the shader reads from \<^verbatim>\<open>gl_FragCoord.xy\<close>.
\<close>

theorem center_maps_to_offset:
  "(u_zoom u \<noteq> 0 \<longrightarrow> frag_c u (vec2_scale (u_resolution u) 0.5) = u_offset u) \<and>
   vec2_scale (u_resolution (set_uniforms initial)) 0.5 = vec2 400 400 \<and>
   frag_c (set_uniforms initial) (vec2 400 400) = vec2 (- 0.5) 0 \<and>
   u_maxIterations (set_uniforms initial) = 1500 \<and>
   frag_iteration (set_uniforms initial) (vec2 400 400) = 1500"
proof (intro conjI impI)
  assume "u_zoom u \<noteq> 0"
  then show "frag_c u (vec2_scale (u_resolution u) 0.5) = u_offset u"
    by (rule frag_c_center)
next
  show "vec2_scale (u_resolution (set_uniforms initial)) 0.5 = vec2 400 400"
    by (simp add: set_uniforms_def WIDTH_def HEIGHT_def vec2_scale_def)
next
  show c: "frag_c (set_uniforms initial) (vec2 400 400) = vec2 (- 0.5) 0"
    by (simp add: frag_c_initial)
  show "u_maxIterations (set_uniforms initial) = 1500"
    by (rule maxIterations_initial)
  have "bounded_until (frag_c (set_uniforms initial) (vec2 400 400))
          (nat (u_maxIterations (set_uniforms initial)))"
    unfolding c by (rule minus_half_bounded)
  then have "frag_iteration (set_uniforms initial) (vec2 400 400)
          = u_maxIterations (set_uniforms initial)"
    by (intro frag_iteration_full) (simp_all add: maxIterations_initial)
  then show "frag_iteration (set_uniforms initial) (vec2 400 400) = 1500"
    by (simp add: maxIterations_initial)
qed

theorem center_maps_to_offset_witness:
  "frag_c \<lparr>u_resolution = vec2 640 480, u_offset = vec2 1 2, u_zoom = 3, u_maxIterations = 10\<rparr>
     (vec2 320 240) = vec2 1 2 \<and>
   frag_iteration (set_uniforms initial) (vec2 400 400) = 1500"
  using center_maps_to_offset
          [of "\<lparr>u_resolution = vec2 640 480, u_offset = vec2 1 2, u_zoom = 3, u_maxIterations = 10\<rparr>"]
  by (simp add: vec2_scale_def)

end
